theory Spec2Isabelle
  imports Main "HOL-Library.Sublist"
begin

section \<open>Cell widgets of the notebook (src/cells/widget.ts)\<close>

subsection \<open>Class names\<close>

definition CELL_CLASS :: string where
  "CELL_CLASS = ''jp-Cell''"

definition SELECTED_CLASS :: string where
  "SELECTED_CLASS = ''jp-mod-selected''"

definition MARKED_CLASS :: string where
  "MARKED_CLASS = ''jp-mod-marked''"

definition CODE_CELL_CLASS :: string where
  "CODE_CELL_CLASS = ''jp-CodeCell''"

definition MARKDOWN_CELL_CLASS :: string where
  "MARKDOWN_CELL_CLASS = ''jp-MarkdownCell''"

definition RAW_CELL_CLASS :: string where
  "RAW_CELL_CLASS = ''jp-RawCell''"

definition RENDERED_CLASS :: string where
  "RENDERED_CLASS = ''jp-mod-rendered''"

definition FOCUSED_CLASS :: string where
  "FOCUSED_CLASS = ''jp-mod-focused''"

subsection \<open>The cell model, as the widgets read and write it\<close>

text \<open>
  The model interfaces live in \<^verbatim>\<open>./model\<close> and \<^verbatim>\<open>../input-area\<close>; the widgets use the
  fields below (\<open>editorText\<close> is the \<^verbatim>\<open>text\<close> of the editor). \<open>stateChanged\<close> is the signal of the model: the list of the callbacks
  connected to it. A callback is the change handler of a widget, which is known by its
  identity (a number).
\<close>

record ITextEditorModel =
  editorText :: string
  mimetype :: string

record IInputAreaModel =
  textEditor :: ITextEditorModel

datatype slot = OnModelChanged nat

record ICellModel =
  selected :: bool
  marked :: bool
  focused :: bool
  input :: IInputAreaModel
  stateChanged :: "slot list"

record IMarkdownCellModel = ICellModel +
  rendered :: bool

text \<open>
  The argument of a change notification (\<^verbatim>\<open>IChangedArgs<any>\<close>): the values are of type
  \<^verbatim>\<open>any\<close>, and the handler tests \<^verbatim>\<open>args.newValue\<close> for truthiness.
\<close>

datatype jsvalue = JUndefined | JNull | JBool bool | JNumber int | JString string | JObject

fun truthy :: "jsvalue \<Rightarrow> bool" where
  "truthy JUndefined = False"
| "truthy JNull = False"
| "truthy (JBool b) = b"
| "truthy (JNumber n) = (n \<noteq> 0)"
| "truthy (JString s) = (s \<noteq> [])"
| "truthy JObject = True"

record IChangedArgs =
  name :: string
  oldValue :: jsvalue
  newValue :: jsvalue

subsection \<open>Rendered text with placeholders\<close>

text \<open>
  The text handed to the markdown converter and the HTML it returns carry placeholder
  tokens where the math was. A placeholder is a symbol of its own, distinct from every
  character of the text.
\<close>

datatype sym = Chr char | Tok nat

type_synonym html = "sym list"

subsection \<open>The widget\<close>

text \<open>
  The sub-views a cell widget puts into its layout, and what a widget does to its
  collaborators: giving focus to the editor of the input area, and the four steps of
  rendering markdown.
\<close>

datatype subview = InputView | OutputView | RenderedView

datatype effect =
    EditorFocus
  | RemoveMath string
  | Marked html
  | SetInnerHTML html
  | Typeset html

text \<open>
  A widget holds its identity (\<^verbatim>\<open>this\<close>, here \<open>self\<close>), its model (the one object it is bound to for its life),
  the class list and the tab index of its node, the children of its layout, and whether
  an update request is posted and not yet delivered. \<open>effects\<close> is the trace of the calls made on
  the collaborators, oldest first.
\<close>

record 'm BaseCellWidget =
  self :: nat
  model :: "'m ICellModel_scheme"
  classList :: "string list"
  tabIndex :: int
  layout :: "subview list"
  updatePosted :: bool
  effects :: "effect list"

text \<open>
  \<^verbatim>\<open>addClass\<close> and \<^verbatim>\<open>removeClass\<close> of the widget base class act on the class list of the
  node: a token list without duplicates.
\<close>

definition addClass :: "string \<Rightarrow> ('m, 'w) BaseCellWidget_scheme \<Rightarrow> ('m, 'w) BaseCellWidget_scheme" where
  "addClass c w =
     (if c \<in> set (classList w) then w else w\<lparr>classList := classList w @ [c]\<rparr>)"

definition removeClass :: "string \<Rightarrow> ('m, 'w) BaseCellWidget_scheme \<Rightarrow> ('m, 'w) BaseCellWidget_scheme" where
  "removeClass c w = w\<lparr>classList := removeAll c (classList w)\<rparr>"

text \<open>
  Modelled from the spec: \<^verbatim>\<open>update()\<close> of the widget base class (not part of the
  sources here). It posts an update request, which is delivered later, once for all the
  requests posted before (section 5 of the spec); nothing is applied inside the call.
\<close>

definition update :: "('m, 'w) BaseCellWidget_scheme \<Rightarrow> ('m, 'w) BaseCellWidget_scheme" where
  "update w = w\<lparr>updatePosted := True\<rparr>"

text \<open>\<^verbatim>\<open>connect\<close> of a signal: a callback already connected is not connected again.\<close>

definition connect :: "slot \<Rightarrow> slot list \<Rightarrow> slot list" where
  "connect s ss = (if s \<in> set ss then ss else ss @ [s])"

subsection \<open>BaseCellWidget\<close>

text \<open>
  The constructor, for the new object \<open>this\<close>: the node of a new widget has the class
  \<^verbatim>\<open>jp-Cell\<close> (the classes the widget base class gives every node of its own are left
  out), the tab index \<open>-1\<close>, no layout children yet, and the change handler connected to
  the model's signal.
\<close>

definition BaseCellWidget_constructor :: "nat \<Rightarrow> 'm ICellModel_scheme \<Rightarrow> 'm BaseCellWidget" where
  "BaseCellWidget_constructor this m =
     (let w = \<lparr>self = this, model = m, classList = [], tabIndex = 0, layout = [],
               updatePosted = False, effects = []\<rparr>;
          w = addClass CELL_CLASS w;
          w = w\<lparr>tabIndex := - 1\<rparr>
      in w\<lparr>model := (model w)\<lparr>stateChanged :=
            connect (OnModelChanged (self w)) (stateChanged (model w))\<rparr>\<rparr>)"

text \<open>
  \<^verbatim>\<open>onUpdateRequest\<close>: the handler of the base class does nothing, then each of the three
  classes is added or removed after its facet.
\<close>

definition BaseCellWidget_onUpdateRequest ::
  "('m, 'w) BaseCellWidget_scheme \<Rightarrow> ('m, 'w) BaseCellWidget_scheme" where
  "BaseCellWidget_onUpdateRequest w =
     (let w = (if selected (model w) then addClass SELECTED_CLASS w
               else removeClass SELECTED_CLASS w);
          w = (if marked (model w) then addClass MARKED_CLASS w
               else removeClass MARKED_CLASS w)
      in (if focused (model w) then addClass FOCUSED_CLASS w
          else removeClass FOCUSED_CLASS w))"

text \<open>\<^verbatim>\<open>onModelChanged\<close>: post an update, then focus the editor when asked to.\<close>

definition BaseCellWidget_onModelChanged ::
  "('m, 'w) BaseCellWidget_scheme \<Rightarrow> IChangedArgs \<Rightarrow> ('m, 'w) BaseCellWidget_scheme" where
  "BaseCellWidget_onModelChanged w args =
     (let w = update w
      in if name args = ''focused'' \<and> truthy (newValue args)
         then w\<lparr>effects := effects w @ [EditorFocus]\<rparr>
         else w)"

subsection \<open>The packages the widgets are built on\<close>

text \<open>
  The markdown converter (\<^verbatim>\<open>marked\<close>, here \<open>markedjs\<close>) and the layouts (\<^verbatim>\<open>PanelLayout\<close>, \<^verbatim>\<open>StackedLayout\<close>
  of the phosphor packages) are not part of the sources here: they are parameters of
  the model. A layout is seen through the list of its children; \<open>addChild\<close> and
  \<open>insertChild\<close> give the children after the call.
\<close>

record packages =
  markedjs :: "html \<Rightarrow> html"
  addChild :: "subview \<Rightarrow> subview list \<Rightarrow> subview list"
  insertChild :: "nat \<Rightarrow> subview \<Rightarrow> subview list \<Rightarrow> subview list"

text \<open>
  What the theorems on the layout ask of it: a call adds the given child (or moves it)
  and keeps the other children.
\<close>

definition keepsChildren :: "packages \<Rightarrow> bool" where
  "keepsChildren env \<longleftrightarrow>
     (\<forall>c cs. set (addChild env c cs) = insert c (set cs)) \<and>
     (\<forall>i c cs. set (insertChild env i c cs) = insert c (set cs))"

text \<open>
  One such layout, for the examples: a child is put at the index asked for, clamped to
  the number of the other children, and leaves its old place if it had one.
\<close>

definition insertAt :: "nat \<Rightarrow> subview \<Rightarrow> subview list \<Rightarrow> subview list" where
  "insertAt i c cs =
     (let rest = removeAll c cs; j = min i (length rest)
      in take j rest @ c # drop j rest)"

definition plainPackages :: packages where
  "plainPackages =
     \<lparr>markedjs = (\<lambda>h. Chr CHR ''<'' # Chr CHR ''p'' # Chr CHR ''>'' # h),
      addChild = (\<lambda>c cs. insertAt (length cs) c cs),
      insertChild = insertAt\<rparr>"

subsection \<open>CodeCellWidget and RawCellWidget\<close>

definition CodeCellWidget_constructor ::
  "packages \<Rightarrow> nat \<Rightarrow> 'm ICellModel_scheme \<Rightarrow> 'm BaseCellWidget" where
  "CodeCellWidget_constructor env this m =
     (let w = BaseCellWidget_constructor this m;
          w = addClass CODE_CELL_CLASS w;
          w = w\<lparr>layout := []\<rparr>;
          w = w\<lparr>layout := addChild env InputView (layout w)\<rparr>
      in w\<lparr>layout := addChild env OutputView (layout w)\<rparr>)"

definition RawCellWidget_constructor ::
  "packages \<Rightarrow> nat \<Rightarrow> 'm ICellModel_scheme \<Rightarrow> 'm BaseCellWidget" where
  "RawCellWidget_constructor env this m =
     (let w = BaseCellWidget_constructor this m;
          w = addClass RAW_CELL_CLASS w;
          w = w\<lparr>layout := []\<rparr>
      in w\<lparr>layout := addChild env InputView (layout w)\<rparr>)"

subsection \<open>Guarding the math (utils/latex)\<close>

text \<open>
  Modelled from the spec: \<^verbatim>\<open>removeMath\<close> and \<^verbatim>\<open>replaceMath\<close> of \<^verbatim>\<open>../utils/latex\<close>, which
  is not among the sources here (section 4.1 of the spec, where they are called
  extractMath and restoreMath). \<open>removeMath\<close> scans the text for math delimiters, inline
  and block, replaces each expression by a placeholder token of its own and returns the
  expressions in their order: token \<open>n\<close> stands for the \<open>n\<close>-th one. The spec shows the
  dollar sign of its example (\<^verbatim>\<open>$E=mc^2$\<close>) and no other delimiter: inline math is read
  as \<^verbatim>\<open>$...$\<close> and block math as \<^verbatim>\<open>$$...$$\<close>, delimiters included. A delimiter that is never
  closed stays in the text as it is (section 7). \<open>replaceMath\<close> puts the expression of
  each token back, verbatim; a token without an expression stays.
\<close>

fun findClose :: "string \<Rightarrow> string \<Rightarrow> (string \<times> string) option" where
  "findClose d [] = None"
| "findClose d (c # cs) =
     (if prefix d (c # cs) then Some ([], drop (length d) (c # cs))
      else (case findClose d cs of
              None \<Rightarrow> None
            | Some (body, rest) \<Rightarrow> Some (c # body, rest)))"

definition openMath :: "string \<Rightarrow> (string \<times> string) option" where
  "openMath t =
     (if prefix ''$$'' t
      then (case findClose ''$$'' (drop 2 t) of
              None \<Rightarrow> None
            | Some (body, rest) \<Rightarrow> Some (''$$'' @ body @ ''$$'', rest))
      else if prefix ''$'' t
      then (case findClose ''$'' (drop 1 t) of
              None \<Rightarrow> None
            | Some (body, rest) \<Rightarrow> Some (''$'' @ body @ ''$'', rest))
      else None)"

function scanMath :: "nat \<Rightarrow> string \<Rightarrow> html \<times> string list" where
  "scanMath n [] = ([], [])"
| "scanMath n (c # cs) =
     (case openMath (c # cs) of
        Some (e, rest) \<Rightarrow>
          (let (s, m) = scanMath (Suc n) rest in (Tok n # s, e # m))
      | None \<Rightarrow>
          (let (s, m) = scanMath n cs in (Chr c # s, m)))"
  by pat_completeness auto
termination
proof (relation "measure (\<lambda>(n, t). length t)")
  have close: "length body + length rest \<le> length t"
    if "findClose d t = Some (body, rest)" for d t body rest
    using that by (induction t arbitrary: body) (auto split: if_splits option.splits)
  have shorter: "length rest < length t" if om: "openMath t = Some (e, rest)" for t e rest
  proof (cases "prefix ''$$'' t")
    case True
    then obtain body where "findClose ''$$'' (drop 2 t) = Some (body, rest)"
      using om by (auto simp: openMath_def split: option.splits)
    from close [OF this] True show ?thesis
      by (auto simp: prefix_def)
  next
    case False
    then have p: "prefix ''$'' t"
      using om by (auto simp: openMath_def split: if_splits)
    with False obtain body where "findClose ''$'' (drop 1 t) = Some (body, rest)"
      using om by (auto simp: openMath_def split: option.splits)
    from close [OF this] p show ?thesis
      by (auto simp: prefix_def)
  qed
  show "wf (measure (\<lambda>(n, t). length t))"
    by simp
  show "((Suc n, rest), n, c # cs) \<in> measure (\<lambda>(n, t). length t)"
    if "openMath (c # cs) = Some p" and "(e, rest) = p" for n c cs p e rest
    using shorter [of "c # cs" e rest] that by simp
  show "((n, cs), n, c # cs) \<in> measure (\<lambda>(n, t). length t)" for n c cs
    by simp
qed

definition removeMath :: "string \<Rightarrow> html \<times> string list" where
  "removeMath t = scanMath 0 t"

fun replaceMath :: "html \<Rightarrow> string list \<Rightarrow> html" where
  "replaceMath [] math = []"
| "replaceMath (Chr c # h) math = Chr c # replaceMath h math"
| "replaceMath (Tok n # h) math =
     (if n < length math then map Chr (math ! n) else [Tok n]) @ replaceMath h math"

subsection \<open>MarkdownCellWidget\<close>

text \<open>
  The markdown widget adds the dirty flag and its rendering widget, of whose node the
  record keeps the HTML.
\<close>

record MarkdownCellWidget = "unit IMarkdownCellModel_ext BaseCellWidget" +
  dirty :: bool
  innerHTML :: html

text \<open>
  The constructor: after the constructor of the base class, the flag starts as true and
  the rendering widget is empty; the model's editor is set to the markdown mode; both
  sub-views are added to a new stacked layout; an update is posted.
\<close>

definition MarkdownCellWidget_constructor ::
  "packages \<Rightarrow> nat \<Rightarrow> IMarkdownCellModel \<Rightarrow> MarkdownCellWidget" where
  "MarkdownCellWidget_constructor env this m =
     (let w = BaseCellWidget.extend (BaseCellWidget_constructor this m)
                (MarkdownCellWidget.fields True []);
          w = addClass MARKDOWN_CELL_CLASS w;
          w = w\<lparr>model := (model w)\<lparr>input := (input (model w))\<lparr>textEditor :=
                 (textEditor (input (model w)))\<lparr>mimetype := ''text/x-ipythongfm''\<rparr>\<rparr>\<rparr>\<rparr>;
          w = w\<lparr>layout := []\<rparr>;
          w = w\<lparr>layout := addChild env InputView (layout w)\<rparr>;
          w = w\<lparr>layout := addChild env RenderedView (layout w)\<rparr>
      in update w)"

text \<open>
  The render computation of \<^verbatim>\<open>onUpdateRequest\<close>: the math is taken out of the text of the
  editor, the rest is converted, the math is put back into the HTML, which becomes the
  content of the rendering node, and the node is typeset.
\<close>

definition render :: "packages \<Rightarrow> MarkdownCellWidget \<Rightarrow> MarkdownCellWidget" where
  "render env w =
     (let t = editorText (textEditor (input (model w)));
          data = removeMath t;
          h = markedjs env (fst data);
          w = w\<lparr>innerHTML := replaceMath h (snd data)\<rparr>
      in w\<lparr>effects := effects w @
            [RemoveMath t, Marked (fst data), SetInnerHTML (innerHTML w), Typeset (innerHTML w)]\<rparr>)"

definition MarkdownCellWidget_onUpdateRequest :: "packages \<Rightarrow> MarkdownCellWidget \<Rightarrow> MarkdownCellWidget" where
  "MarkdownCellWidget_onUpdateRequest env w =
     (let w = (if rendered (model w)
               then (let w = (if dirty w then render env w else w);
                         w = w\<lparr>layout := insertChild env 1 RenderedView (layout w)\<rparr>
                     in addClass RENDERED_CLASS w)
               else (let w = w\<lparr>layout := insertChild env 1 InputView (layout w)\<rparr>
                     in removeClass RENDERED_CLASS w));
          w = w\<lparr>dirty := False\<rparr>
      in BaseCellWidget_onUpdateRequest w)"

definition MarkdownCellWidget_onModelChanged :: "MarkdownCellWidget \<Rightarrow> IChangedArgs \<Rightarrow> MarkdownCellWidget" where
  "MarkdownCellWidget_onModelChanged w args =
     (let w = BaseCellWidget_onModelChanged w args
      in if name args = ''rendered'' then update (w\<lparr>dirty := True\<rparr>) else w)"

subsection \<open>A markdown widget in its surroundings\<close>

text \<open>
  What can happen to a constructed markdown widget: the surroundings change the model
  (to any state), the signal of the model is emitted (every connected callback is
  called, in order; the callbacks of other widgets do not touch this one), or the posted
  update request is delivered.

  Modelled from the spec: the delivery of update requests by the message loop of the
  widget base class (section 5: deferred, and once for all the requests posted before).
\<close>

datatype action = SetModel IMarkdownCellModel | Emit IChangedArgs | Deliver

definition deliver :: "packages \<Rightarrow> MarkdownCellWidget \<Rightarrow> MarkdownCellWidget" where
  "deliver env w =
     (if updatePosted w
      then MarkdownCellWidget_onUpdateRequest env (w\<lparr>updatePosted := False\<rparr>)
      else w)"

fun call :: "IChangedArgs \<Rightarrow> MarkdownCellWidget \<Rightarrow> slot \<Rightarrow> MarkdownCellWidget" where
  "call args w (OnModelChanged receiver) =
     (if receiver = self w then MarkdownCellWidget_onModelChanged w args else w)"

definition emit :: "IChangedArgs \<Rightarrow> MarkdownCellWidget \<Rightarrow> MarkdownCellWidget" where
  "emit args w = foldl (call args) w (stateChanged (model w))"

fun step :: "packages \<Rightarrow> MarkdownCellWidget \<Rightarrow> action \<Rightarrow> MarkdownCellWidget" where
  "step env w (SetModel m) = w\<lparr>model := m\<rparr>"
| "step env w (Emit args) = emit args w"
| "step env w Deliver = deliver env w"

definition run :: "packages \<Rightarrow> MarkdownCellWidget \<Rightarrow> action list \<Rightarrow> MarkdownCellWidget" where
  "run env w acts = foldl (step env) w acts"

text \<open>The number of render computations in a trace: one typesetting call each.\<close>

fun isTypeset :: "effect \<Rightarrow> bool" where
  "isTypeset (Typeset h) = True"
| "isTypeset e = False"

definition renderCount :: "effect list \<Rightarrow> nat" where
  "renderCount es = length (filter isTypeset es)"

text \<open>
  What one render computation on the text \<open>t\<close> leaves behind: the HTML of the rendering
  node and the calls in the trace.
\<close>

definition renderedHTML :: "packages \<Rightarrow> string \<Rightarrow> html" where
  "renderedHTML env t = replaceMath (markedjs env (fst (removeMath t))) (snd (removeMath t))"

definition renderTrace :: "packages \<Rightarrow> string \<Rightarrow> effect list" where
  "renderTrace env t =
     [RemoveMath t, Marked (fst (removeMath t)),
      SetInnerHTML (renderedHTML env t), Typeset (renderedHTML env t)]"

subsection \<open>Examples\<close>

text \<open>
  A markdown model in the editing state, the widget constructed on it, the same model
  in the rendered state with the widget after its first update, and a notification of
  focus.
\<close>

definition exampleModel :: IMarkdownCellModel where
  "exampleModel =
     \<lparr>selected = False, marked = True, focused = False,
      input = \<lparr>textEditor = \<lparr>editorText = ''Energy: $E=mc^2$ rules.'', mimetype = []\<rparr>\<rparr>,
      stateChanged = [], rendered = False\<rparr>"

definition exampleWidget :: MarkdownCellWidget where
  "exampleWidget = MarkdownCellWidget_constructor plainPackages 1 exampleModel"

definition renderedModel :: IMarkdownCellModel where
  "renderedModel = exampleModel\<lparr>rendered := True\<rparr>"

definition renderedWidget :: MarkdownCellWidget where
  "renderedWidget =
     deliver plainPackages (MarkdownCellWidget_constructor plainPackages 1 renderedModel)"

definition focusArgs :: IChangedArgs where
  "focusArgs = \<lparr>name = ''focused'', oldValue = JBool False, newValue = JBool True\<rparr>"

section \<open>Properties\<close>

subsection \<open>Classes and fields\<close>

lemma class_names_distinct:
  "distinct [SELECTED_CLASS, MARKED_CLASS, FOCUSED_CLASS, RENDERED_CLASS]"
  by (simp add: SELECTED_CLASS_def MARKED_CLASS_def FOCUSED_CLASS_def RENDERED_CLASS_def)

lemma addClass_fields [simp]:
  "set (classList (addClass c w)) = insert c (set (classList w))"
  "model (addClass c w) = model w"
  "effects (addClass c w) = effects w"
  "layout (addClass c w) = layout w"
  "updatePosted (addClass c w) = updatePosted w"
  "self (addClass c w) = self w"
  "BaseCellWidget.more (addClass c w) = BaseCellWidget.more w"
  by (auto simp: addClass_def)

lemma removeClass_fields [simp]:
  "set (classList (removeClass c w)) = set (classList w) - {c}"
  "model (removeClass c w) = model w"
  "effects (removeClass c w) = effects w"
  "layout (removeClass c w) = layout w"
  "updatePosted (removeClass c w) = updatePosted w"
  "self (removeClass c w) = self w"
  "BaseCellWidget.more (removeClass c w) = BaseCellWidget.more w"
  by (auto simp: removeClass_def)

lemma update_fields [simp]:
  "updatePosted (update w) = True"
  "model (update w) = model w"
  "effects (update w) = effects w"
  "layout (update w) = layout w"
  "classList (update w) = classList w"
  "self (update w) = self w"
  "BaseCellWidget.more (update w) = BaseCellWidget.more w"
  by (simp_all add: update_def)

lemma base_update_fields [simp]:
  "model (BaseCellWidget_onUpdateRequest w) = model w"
  "effects (BaseCellWidget_onUpdateRequest w) = effects w"
  "layout (BaseCellWidget_onUpdateRequest w) = layout w"
  "updatePosted (BaseCellWidget_onUpdateRequest w) = updatePosted w"
  "self (BaseCellWidget_onUpdateRequest w) = self w"
  "BaseCellWidget.more (BaseCellWidget_onUpdateRequest w) = BaseCellWidget.more w"
  by (simp_all add: BaseCellWidget_onUpdateRequest_def Let_def)

lemma base_update_classes:
  "set (classList (BaseCellWidget_onUpdateRequest w)) =
     (set (classList w) - {SELECTED_CLASS, MARKED_CLASS, FOCUSED_CLASS})
     \<union> (if selected (model w) then {SELECTED_CLASS} else {})
     \<union> (if marked (model w) then {MARKED_CLASS} else {})
     \<union> (if focused (model w) then {FOCUSED_CLASS} else {})"
  using class_names_distinct
  by (auto simp: BaseCellWidget_onUpdateRequest_def Let_def)

lemma base_changed_fields [simp]:
  "updatePosted (BaseCellWidget_onModelChanged w args) = True"
  "model (BaseCellWidget_onModelChanged w args) = model w"
  "layout (BaseCellWidget_onModelChanged w args) = layout w"
  "classList (BaseCellWidget_onModelChanged w args) = classList w"
  "self (BaseCellWidget_onModelChanged w args) = self w"
  "BaseCellWidget.more (BaseCellWidget_onModelChanged w args) = BaseCellWidget.more w"
  by (simp_all add: BaseCellWidget_onModelChanged_def Let_def)

lemma base_changed_effects:
  "effects (BaseCellWidget_onModelChanged w args) =
     (if name args = ''focused'' \<and> truthy (newValue args)
      then effects w @ [EditorFocus] else effects w)"
  by (simp add: BaseCellWidget_onModelChanged_def Let_def)

subsection \<open>The markdown widget, field by field\<close>

lemma markdown_fields_kept [simp]:
  "dirty (addClass c w) = dirty w" "innerHTML (addClass c w) = innerHTML w"
  "dirty (removeClass c w) = dirty w" "innerHTML (removeClass c w) = innerHTML w"
  "dirty (update w) = dirty w" "innerHTML (update w) = innerHTML w"
  "dirty (BaseCellWidget_onUpdateRequest w) = dirty w"
  "innerHTML (BaseCellWidget_onUpdateRequest w) = innerHTML w"
  "dirty (BaseCellWidget_onModelChanged w args) = dirty w"
  "innerHTML (BaseCellWidget_onModelChanged w args) = innerHTML w"
  by (simp_all add: addClass_def removeClass_def update_def BaseCellWidget_onUpdateRequest_def
      BaseCellWidget_onModelChanged_def Let_def)

lemma constructor_fields [simp]:
  "dirty (MarkdownCellWidget_constructor env this m) = True"
  "updatePosted (MarkdownCellWidget_constructor env this m) = True"
  "effects (MarkdownCellWidget_constructor env this m) = []"
  "innerHTML (MarkdownCellWidget_constructor env this m) = []"
  "self (MarkdownCellWidget_constructor env this m) = this"
  "layout (MarkdownCellWidget_constructor env this m) =
     addChild env RenderedView (addChild env InputView [])"
  by (simp_all add: MarkdownCellWidget_constructor_def BaseCellWidget_constructor_def Let_def
      BaseCellWidget.extend_def MarkdownCellWidget.fields_def addClass_def update_def)

lemma constructor_model:
  "model (MarkdownCellWidget_constructor env this m) =
     m\<lparr>input := (input m)\<lparr>textEditor :=
           (textEditor (input m))\<lparr>mimetype := ''text/x-ipythongfm''\<rparr>\<rparr>,
       stateChanged := connect (OnModelChanged this) (stateChanged m)\<rparr>"
  by (simp add: MarkdownCellWidget_constructor_def BaseCellWidget_constructor_def Let_def
      BaseCellWidget.extend_def MarkdownCellWidget.fields_def addClass_def update_def)

lemma render_fields [simp]:
  "model (render env w) = model w"
  "classList (render env w) = classList w"
  "layout (render env w) = layout w"
  "updatePosted (render env w) = updatePosted w"
  "self (render env w) = self w"
  "dirty (render env w) = dirty w"
  by (simp_all add: render_def Let_def)

lemma renderCount_append [simp]:
  "renderCount (es @ fs) = renderCount es + renderCount fs"
  by (simp add: renderCount_def)

lemma render_count: "renderCount (effects (render env w)) = Suc (renderCount (effects w))"
  by (simp add: render_def Let_def renderCount_def)

lemma render_effects:
  "effects (render env w) =
     effects w @ renderTrace env (editorText (textEditor (input (model w))))"
  "innerHTML (render env w) = renderedHTML env (editorText (textEditor (input (model w))))"
  by (simp_all add: render_def Let_def renderTrace_def renderedHTML_def)

lemma markdown_update_fields [simp]:
  "model (MarkdownCellWidget_onUpdateRequest env w) = model w"
  "updatePosted (MarkdownCellWidget_onUpdateRequest env w) = updatePosted w"
  "self (MarkdownCellWidget_onUpdateRequest env w) = self w"
  "dirty (MarkdownCellWidget_onUpdateRequest env w) = False"
  by (simp_all add: MarkdownCellWidget_onUpdateRequest_def Let_def)

lemma markdown_update_effects:
  "effects (MarkdownCellWidget_onUpdateRequest env w) =
     (if rendered (model w) \<and> dirty w then effects (render env w) else effects w)"
  by (simp add: MarkdownCellWidget_onUpdateRequest_def Let_def)

lemma markdown_update_innerHTML:
  "innerHTML (MarkdownCellWidget_onUpdateRequest env w) =
     (if rendered (model w) \<and> dirty w then innerHTML (render env w) else innerHTML w)"
  by (simp add: MarkdownCellWidget_onUpdateRequest_def Let_def)

lemma markdown_update_layout:
  "layout (MarkdownCellWidget_onUpdateRequest env w) =
     insertChild env 1 (if rendered (model w) then RenderedView else InputView) (layout w)"
  by (simp add: MarkdownCellWidget_onUpdateRequest_def Let_def)

lemma markdown_update_classes:
  "set (classList (MarkdownCellWidget_onUpdateRequest env w)) =
     (set (classList w) - {SELECTED_CLASS, MARKED_CLASS, FOCUSED_CLASS, RENDERED_CLASS})
     \<union> (if selected (model w) then {SELECTED_CLASS} else {})
     \<union> (if marked (model w) then {MARKED_CLASS} else {})
     \<union> (if focused (model w) then {FOCUSED_CLASS} else {})
     \<union> (if rendered (model w) then {RENDERED_CLASS} else {})"
  using class_names_distinct
  by (auto simp: MarkdownCellWidget_onUpdateRequest_def Let_def base_update_classes)

lemma markdown_changed_fields [simp]:
  "updatePosted (MarkdownCellWidget_onModelChanged w args) = True"
  "model (MarkdownCellWidget_onModelChanged w args) = model w"
  "layout (MarkdownCellWidget_onModelChanged w args) = layout w"
  "classList (MarkdownCellWidget_onModelChanged w args) = classList w"
  "self (MarkdownCellWidget_onModelChanged w args) = self w"
  "innerHTML (MarkdownCellWidget_onModelChanged w args) = innerHTML w"
  by (simp_all add: MarkdownCellWidget_onModelChanged_def Let_def)

lemma markdown_changed_dirty:
  "dirty (MarkdownCellWidget_onModelChanged w args) = (name args = ''rendered'' \<or> dirty w)"
  by (simp add: MarkdownCellWidget_onModelChanged_def Let_def)

lemma markdown_changed_effects:
  "effects (MarkdownCellWidget_onModelChanged w args) =
     (if name args = ''focused'' \<and> truthy (newValue args)
      then effects w @ [EditorFocus] else effects w)"
  by (simp add: MarkdownCellWidget_onModelChanged_def Let_def base_changed_effects)

lemma markdown_changed_renderCount [simp]:
  "renderCount (effects (MarkdownCellWidget_onModelChanged w args)) = renderCount (effects w)"
  by (simp add: markdown_changed_effects renderCount_def)

subsection \<open>Emitting the signal, delivering the update\<close>

lemma foldl_call_fields:
  "model (foldl (call args) w ss) = model w \<and>
   self (foldl (call args) w ss) = self w \<and>
   layout (foldl (call args) w ss) = layout w \<and>
   classList (foldl (call args) w ss) = classList w \<and>
   innerHTML (foldl (call args) w ss) = innerHTML w \<and>
   renderCount (effects (foldl (call args) w ss)) = renderCount (effects w)"
proof (induction ss arbitrary: w)
  case Nil
  show ?case by simp
next
  case (Cons s ss)
  show ?case by (cases s) (simp add: Cons.IH)
qed

lemma foldl_call_effects:
  "name args \<noteq> ''focused'' \<Longrightarrow> effects (foldl (call args) w ss) = effects w"
proof (induction ss arbitrary: w)
  case Nil
  show ?case by simp
next
  case (Cons s ss)
  then show ?case by (cases s) (simp add: markdown_changed_effects)
qed

lemma foldl_call_dirty:
  "dirty w \<Longrightarrow> dirty (foldl (call args) w ss)"
proof (induction ss arbitrary: w)
  case Nil
  then show ?case by simp
next
  case (Cons s ss)
  then show ?case by (cases s) (simp add: markdown_changed_dirty)
qed

lemma foldl_call_posted:
  "updatePosted w \<Longrightarrow> updatePosted (foldl (call args) w ss)"
proof (induction ss arbitrary: w)
  case Nil
  then show ?case by simp
next
  case (Cons s ss)
  then show ?case by (cases s) simp
qed

lemma foldl_call_rendered:
  "name args = ''rendered'' \<Longrightarrow> OnModelChanged (self w) \<in> set ss \<Longrightarrow>
   dirty (foldl (call args) w ss) \<and> updatePosted (foldl (call args) w ss)"
proof (induction ss arbitrary: w)
  case Nil
  then show ?case by simp
next
  case (Cons s ss)
  show ?case
  proof (cases "s = OnModelChanged (self w)")
    case True
    then show ?thesis
      using Cons.prems(1)
      by (simp add: foldl_call_dirty foldl_call_posted markdown_changed_dirty)
  next
    case False
    then have "foldl (call args) w (s # ss) = foldl (call args) w ss"
      by (cases s) auto
    moreover have "OnModelChanged (self w) \<in> set ss"
      using False Cons.prems(2) by auto
    ultimately show ?thesis
      using Cons.IH [OF Cons.prems(1)] by simp
  qed
qed

lemma emit_fields [simp]:
  "model (emit args w) = model w"
  "self (emit args w) = self w"
  "layout (emit args w) = layout w"
  "classList (emit args w) = classList w"
  "innerHTML (emit args w) = innerHTML w"
  "renderCount (effects (emit args w)) = renderCount (effects w)"
  by (simp_all add: emit_def foldl_call_fields)

lemma deliver_fields [simp]:
  "model (deliver env w) = model w"
  "self (deliver env w) = self w"
  "updatePosted (deliver env w) = False"
  by (simp_all add: deliver_def)

lemma deliver_idle:
  "\<not> updatePosted w \<Longrightarrow> run env w (replicate k Deliver) = w"
  by (induction k) (simp_all add: run_def deliver_def)

text \<open>
  The model's \<open>rendered\<close> facet is set to true, the change is notified, and the update
  is delivered: one render computation takes place.
\<close>

lemma toggle_on_then_deliver:
  assumes "OnModelChanged (self w) \<in> set (stateChanged (model w))"
    and "w' = run env w
           [SetModel ((model w)\<lparr>rendered := True\<rparr>),
            Emit \<lparr>name = ''rendered'', oldValue = ov, newValue = JBool True\<rparr>,
            Deliver]"
  shows "renderCount (effects w') = renderCount (effects w) + 1" and "\<not> dirty w'"
    and "\<not> updatePosted w'" and "rendered (model w')"
    and "effects w' = effects w @ renderTrace env (editorText (textEditor (input (model w))))"
    and "innerHTML w' = renderedHTML env (editorText (textEditor (input (model w))))"
proof -
  let ?w1 = "w\<lparr>model := (model w)\<lparr>rendered := True\<rparr>\<rparr>"
  let ?args = "\<lparr>name = ''rendered'', oldValue = ov, newValue = JBool True\<rparr>"
  let ?w2 = "emit ?args ?w1"
  have w': "w' = deliver env ?w2"
    using assms(2) by (simp add: run_def)
  have "OnModelChanged (self ?w1) \<in> set (stateChanged (model ?w1))"
    using assms(1) by simp
  then have d: "dirty ?w2 \<and> updatePosted ?w2"
    unfolding emit_def by (intro foldl_call_rendered) simp_all
  have r: "rendered (model ?w2)" by simp
  have c: "renderCount (effects ?w2) = renderCount (effects w)" by simp
  show "renderCount (effects w') = renderCount (effects w) + 1"
    using d r c by (simp add: w' deliver_def markdown_update_effects render_count del: emit_fields)
  show "\<not> dirty w'" using d by (simp add: w' deliver_def)
  show "\<not> updatePosted w'" by (simp add: w')
  show "rendered (model w')" by (simp add: w')
  have e: "effects ?w2 = effects w"
    by (simp add: emit_def foldl_call_effects)
  have m: "model ?w2 = (model w)\<lparr>rendered := True\<rparr>" by simp
  show "effects w' = effects w @ renderTrace env (editorText (textEditor (input (model w))))"
    using d e by (simp add: w' deliver_def markdown_update_effects render_effects
        del: emit_fields) (simp add: m)
  show "innerHTML w' = renderedHTML env (editorText (textEditor (input (model w))))"
    using d by (simp add: w' deliver_def markdown_update_innerHTML render_effects
        del: emit_fields) (simp add: m)
qed

text \<open>Until the first update is delivered, the widget stays dirty and has rendered nothing.\<close>

lemma run_before_first_update:
  assumes "Deliver \<notin> set acts" and "dirty w" and "updatePosted w"
  shows "dirty (run env w acts) \<and> updatePosted (run env w acts) \<and>
         renderCount (effects (run env w acts)) = renderCount (effects w)"
  using assms unfolding run_def
proof (induction acts arbitrary: w)
  case Nil
  then show ?case by simp
next
  case (Cons a acts)
  have "dirty (step env w a) \<and> updatePosted (step env w a) \<and>
        renderCount (effects (step env w a)) = renderCount (effects w)"
    using Cons.prems
    by (cases a) (simp_all add: emit_def foldl_call_dirty foldl_call_posted foldl_call_fields)
  then show ?case
    using Cons.IH [of "step env w a"] Cons.prems(1) by simp
qed

subsection \<open>The children of the layout\<close>

lemma set_insertAt: "set (insertAt i c cs) = insert c (set cs)"
proof -
  have "set (take j r) \<union> set (drop j r) = set r" for j and r :: "subview list"
    by (metis append_take_drop_id set_append)
  then show ?thesis
    by (auto simp: insertAt_def Let_def)
qed

lemma keepsChildren_plain: "keepsChildren plainPackages"
  by (simp add: keepsChildren_def plainPackages_def set_insertAt)

lemma step_layout:
  assumes "keepsChildren env" and "set (layout w) = {InputView, RenderedView}"
  shows "set (layout (step env w a)) = {InputView, RenderedView}"
proof (cases a)
  case (SetModel m)
  then show ?thesis using assms(2) by simp
next
  case (Emit args)
  then show ?thesis using assms(2) by simp
next
  case Deliver
  then show ?thesis
    using assms by (auto simp: deliver_def markdown_update_layout keepsChildren_def)
qed

lemma run_layout:
  assumes "keepsChildren env" and "set (layout w) = {InputView, RenderedView}"
  shows "set (layout (run env w acts)) = {InputView, RenderedView}"
  using assms(2) unfolding run_def
  by (induction acts arbitrary: w) (simp_all add: step_layout [OF assms(1)])

subsection \<open>The connection to the model\<close>

text \<open>
  Each constructor connects the change handler of the new widget to the signal of its
  model, once; for a new object, which cannot be connected yet, this is one more
  connection at the end of the list.
\<close>

lemma connect_new: "s \<notin> set ss \<Longrightarrow> connect s ss = ss @ [s]"
  by (simp add: connect_def)

lemma constructors_connect_handler:
  "stateChanged (model (BaseCellWidget_constructor this m)) =
     connect (OnModelChanged this) (stateChanged m)"
  "stateChanged (model (CodeCellWidget_constructor env this m)) =
     connect (OnModelChanged this) (stateChanged m)"
  "stateChanged (model (RawCellWidget_constructor env this m)) =
     connect (OnModelChanged this) (stateChanged m)"
  "stateChanged (model (MarkdownCellWidget_constructor env this m')) =
     connect (OnModelChanged this) (stateChanged m')"
  by (simp_all add: BaseCellWidget_constructor_def CodeCellWidget_constructor_def
      RawCellWidget_constructor_def constructor_model Let_def addClass_def)

subsection \<open>The math guard\<close>

lemma findClose_split:
  "findClose d t = Some (body, rest) \<Longrightarrow> t = body @ d @ rest"
  by (induction t arbitrary: body) (auto split: if_splits option.splits simp: prefix_def)

lemma openMath_split:
  assumes "openMath t = Some (e, rest)"
  shows "t = e @ rest"
proof (cases "prefix ''$$'' t")
  case True
  then obtain body where b: "findClose ''$$'' (drop 2 t) = Some (body, rest)"
    and e: "e = ''$$'' @ body @ ''$$''"
    using assms by (auto simp: openMath_def split: option.splits)
  from True have "t = ''$$'' @ drop 2 t" by (auto simp: prefix_def)
  with findClose_split [OF b] e show ?thesis by simp
next
  case False
  then have p: "prefix ''$'' t"
    using assms by (auto simp: openMath_def split: if_splits)
  with False obtain body where b: "findClose ''$'' (drop 1 t) = Some (body, rest)"
    and e: "e = ''$'' @ body @ ''$''"
    using assms by (auto simp: openMath_def split: option.splits)
  from p have "t = ''$'' @ drop 1 t" by (auto simp: prefix_def)
  with findClose_split [OF b] e show ?thesis by simp
qed

text \<open>Every expression taken out starts and ends with a dollar sign.\<close>

lemma openMath_delimited:
  assumes "openMath t = Some (e, rest)"
  shows "\<exists>body. e = ''$'' @ body @ ''$''"
  using assms by (auto simp: openMath_def split: if_splits option.splits)

text \<open>The tokens of the stripped text are numbered from \<open>n\<close> on, one for each expression.\<close>

lemma scanMath_tokens:
  "scanMath n t = (s, m) \<Longrightarrow> Tok k \<in> set s \<longleftrightarrow> n \<le> k \<and> k < n + length m"
proof (induction n t arbitrary: s m rule: scanMath.induct)
  case (1 n)
  then show ?case by simp
next
  case (2 n c cs)
  show ?case
  proof (cases "openMath (c # cs)")
    case None
    obtain s' m' where r: "scanMath n cs = (s', m')" by (cases "scanMath n cs")
    with None "2.prems" have "s = Chr c # s'" "m = m'" by simp_all
    with "2.IH"(1) [OF None r] show ?thesis by simp
  next
    case (Some p)
    obtain e rest where p: "p = (e, rest)" by (cases p)
    obtain s' m' where r: "scanMath (Suc n) rest = (s', m')" by (cases "scanMath (Suc n) rest")
    with Some p "2.prems" have sm: "s = Tok n # s'" "m = e # m'" by simp_all
    have "Tok k \<in> set s' \<longleftrightarrow> Suc n \<le> k \<and> k < Suc n + length m'"
      using "2.IH"(2) [OF Some p [symmetric] r] .
    then show ?thesis unfolding sm by auto
  qed
qed

lemma removeMath_tokens:
  "Tok k \<in> set (fst (removeMath t)) \<longleftrightarrow> k < length (snd (removeMath t))"
  using scanMath_tokens [of 0 t "fst (removeMath t)" "snd (removeMath t)" k]
  by (simp add: removeMath_def)

text \<open>Wherever a token stands in the HTML, its expression stands in the result.\<close>

lemma replaceMath_contains:
  "Tok k \<in> set h \<Longrightarrow> k < length math \<Longrightarrow> sublist (map Chr (math ! k)) (replaceMath h math)"
proof (induction h)
  case Nil
  then show ?case by simp
next
  case (Cons x h)
  show ?case
  proof (cases "x = Tok k")
    case True
    then show ?thesis using Cons.prems(2) by (simp add: sublist_append_rightI)
  next
    case False
    then have "sublist (map Chr (math ! k)) (replaceMath h math)"
      using Cons by simp
    then obtain ps ss where "replaceMath h math = ps @ map Chr (math ! k) @ ss"
      by (auto simp: sublist_def)
    then have "replaceMath (x # h) math = (replaceMath [x] math @ ps) @ map Chr (math ! k) @ ss"
      by (cases x) simp_all
    then show ?thesis unfolding sublist_def by blast
  qed
qed

text \<open>Without a converter in between, putting the math back gives the text again.\<close>

lemma scanMath_restores:
  "scanMath (length pre) t = (s, m) \<Longrightarrow> replaceMath s (pre @ m) = map Chr t"
proof (induction "length pre" t arbitrary: pre s m rule: scanMath.induct)
  case 1
  then show ?case by simp
next
  case (2 c cs)
  show ?case
  proof (cases "openMath (c # cs)")
    case None
    obtain s' m' where r: "scanMath (length pre) cs = (s', m')"
      by (cases "scanMath (length pre) cs")
    with None "2.prems" have "s = Chr c # s'" "m = m'" by simp_all
    with "2.hyps"(1) [OF None refl r] show ?thesis by simp
  next
    case (Some p)
    obtain e rest where p: "p = (e, rest)" by (cases p)
    obtain s' m' where r: "scanMath (Suc (length pre)) rest = (s', m')"
      by (cases "scanMath (Suc (length pre)) rest")
    with Some p "2.prems" have sm: "s = Tok (length pre) # s'" "m = e # m'" by simp_all
    have "replaceMath s' ((pre @ [e]) @ m') = map Chr rest"
      using "2.hyps"(2) [OF Some p [symmetric], of "pre @ [e]" s' m'] r by simp
    moreover have "c # cs = e @ rest"
      using openMath_split Some p by blast
    ultimately show ?thesis unfolding sm by simp
  qed
qed

lemma removeMath_restores:
  "replaceMath (fst (removeMath t)) (snd (removeMath t)) = map Chr t"
  using scanMath_restores [of "[]" t "fst (removeMath t)" "snd (removeMath t)"]
  by (simp add: removeMath_def)

text \<open>
  The converter may do anything to the prose as long as the tokens of the stripped text
  are still in its result: then every expression is in the restored text.
\<close>

lemma restored_math:
  assumes "\<And>n. Tok n \<in> set (fst (removeMath t)) \<Longrightarrow> Tok n \<in> set (md (fst (removeMath t)))"
    and "e \<in> set (snd (removeMath t))"
  shows "sublist (map Chr e) (replaceMath (md (fst (removeMath t))) (snd (removeMath t)))"
proof -
  from assms(2) obtain k where k: "k < length (snd (removeMath t))" "snd (removeMath t) ! k = e"
    by (auto simp: in_set_conv_nth)
  then have "Tok k \<in> set (md (fst (removeMath t)))"
    using assms(1) removeMath_tokens by blast
  from replaceMath_contains [OF this k(1)] k(2) show ?thesis
    by simp
qed

text \<open>Every expression taken out is a piece of the text.\<close>

lemma expressions_from_text:
  assumes "e \<in> set (snd (removeMath t))"
  shows "sublist e t"
proof -
  have "sublist (map Chr e) (map Chr t)"
    using restored_math [of t "\<lambda>h. h" e] assms by (simp add: removeMath_restores)
  then obtain e' where "sublist e' t" and "map Chr e = map Chr e'"
    using sublist_map_rightE by blast
  moreover have "inj Chr" by (simp add: inj_def)
  ultimately show ?thesis by (simp add: inj_map_eq_map)
qed

text \<open>
  In the widget: after an update that renders, the rendering node holds the restored
  text, with every expression of the editor's text in it.
\<close>

lemma rendering_update_innerHTML:
  assumes "rendered (model w)" and "dirty w"
  shows "innerHTML (MarkdownCellWidget_onUpdateRequest env w) =
           replaceMath
             (markedjs env (fst (removeMath (editorText (textEditor (input (model w)))))))
             (snd (removeMath (editorText (textEditor (input (model w))))))"
  using assms by (simp add: markdown_update_innerHTML render_def Let_def)

lemma rendered_node_keeps_math:
  assumes "rendered (model w)" and "dirty w"
    and "t = editorText (textEditor (input (model w)))"
    and "\<And>n. Tok n \<in> set (fst (removeMath t)) \<Longrightarrow>
           Tok n \<in> set (markedjs env (fst (removeMath t)))"
    and "e \<in> set (snd (removeMath t))"
  shows "sublist (map Chr e) (innerHTML (MarkdownCellWidget_onUpdateRequest env w))"
  using restored_math [of t "markedjs env" e, OF assms(4,5)] rendering_update_innerHTML [OF assms(1,2)] assms(3)
  by simp

lemma example_removeMath:
  "removeMath ''Energy: $E=mc^2$ rules.'' =
     (map Chr ''Energy: '' @ Tok 0 # map Chr '' rules.'', [''$E=mc^2$''])"
  by (simp add: removeMath_def openMath_def)

section \<open>The claims\<close>

text \<open>
  C1: after an update is applied to a cell view, each of the three classes for the
  facets selected, marked and focused is on the widget if and only if its facet is
  true, for every combination of the facets; the update touches no other class. This
  holds for the handler of the base class (which code and raw cells use as it is) and
  for the handler of the markdown cell, which adds the class of the rendered facet in
  the same way.
\<close>

theorem visual_flags_follow_facets:
  "(SELECTED_CLASS \<in> set (classList (BaseCellWidget_onUpdateRequest b)) \<longleftrightarrow> selected (model b)) \<and>
   (MARKED_CLASS \<in> set (classList (BaseCellWidget_onUpdateRequest b)) \<longleftrightarrow> marked (model b)) \<and>
   (FOCUSED_CLASS \<in> set (classList (BaseCellWidget_onUpdateRequest b)) \<longleftrightarrow> focused (model b)) \<and>
   set (classList (BaseCellWidget_onUpdateRequest b))
       - {SELECTED_CLASS, MARKED_CLASS, FOCUSED_CLASS}
     = set (classList b) - {SELECTED_CLASS, MARKED_CLASS, FOCUSED_CLASS} \<and>
   (SELECTED_CLASS \<in> set (classList (MarkdownCellWidget_onUpdateRequest env w))
      \<longleftrightarrow> selected (model w)) \<and>
   (MARKED_CLASS \<in> set (classList (MarkdownCellWidget_onUpdateRequest env w))
      \<longleftrightarrow> marked (model w)) \<and>
   (FOCUSED_CLASS \<in> set (classList (MarkdownCellWidget_onUpdateRequest env w))
      \<longleftrightarrow> focused (model w)) \<and>
   (RENDERED_CLASS \<in> set (classList (MarkdownCellWidget_onUpdateRequest env w))
      \<longleftrightarrow> rendered (model w)) \<and>
   set (classList (MarkdownCellWidget_onUpdateRequest env w))
       - {SELECTED_CLASS, MARKED_CLASS, FOCUSED_CLASS, RENDERED_CLASS}
     = set (classList w) - {SELECTED_CLASS, MARKED_CLASS, FOCUSED_CLASS, RENDERED_CLASS}"
  using class_names_distinct
  by (auto simp: base_update_classes markdown_update_classes)

text \<open>
  C2: when the rendered facet of the model of a markdown cell view is set to true, the
  change is notified to the view and the update it posts is delivered, exactly one
  render computation takes place, whatever the text is and whether it changed or not:
  the trace grows by the four calls of one rendering of the text, and delivering again
  renders nothing more. The two steps behind it: every notification of the rendered
  facet sets the dirty flag, and an update renders (once) exactly when the facet is
  true and the flag is set.
\<close>

theorem rendered_toggle_renders_once:
  assumes "OnModelChanged (self w) \<in> set (stateChanged (model w))"
    and "w' = run env w
           [SetModel ((model w)\<lparr>rendered := True\<rparr>),
            Emit \<lparr>name = ''rendered'', oldValue = ov, newValue = JBool True\<rparr>,
            Deliver]"
  shows "effects w' = effects w @ renderTrace env (editorText (textEditor (input (model w)))) \<and>
         renderCount (effects w') = renderCount (effects w) + 1 \<and>
         renderCount (effects (run env w' (replicate k Deliver))) = renderCount (effects w) + 1 \<and>
         dirty (MarkdownCellWidget_onModelChanged v
                  \<lparr>name = ''rendered'', oldValue = a, newValue = b\<rparr>) \<and>
         renderCount (effects (MarkdownCellWidget_onUpdateRequest env v)) =
           renderCount (effects v) + (if rendered (model v) \<and> dirty v then 1 else 0)"
  using toggle_on_then_deliver [OF assms]
  by (simp add: deliver_idle markdown_changed_dirty markdown_update_effects render_count)

theorem rendered_toggle_renders_once_witness:
  "OnModelChanged (self exampleWidget) \<in> set (stateChanged (model exampleWidget)) \<and>
   renderCount (effects (run plainPackages exampleWidget
           [SetModel ((model exampleWidget)\<lparr>rendered := True\<rparr>),
            Emit \<lparr>name = ''rendered'', oldValue = JBool False, newValue = JBool True\<rparr>,
            Deliver])) = 1"
proof -
  have h: "OnModelChanged (self exampleWidget) \<in> set (stateChanged (model exampleWidget))"
    by (simp add: exampleWidget_def constructor_model connect_def exampleModel_def)
  show ?thesis
    using h rendered_toggle_renders_once
      [OF h refl, of plainPackages "JBool False" 0 exampleWidget JNull JNull]
    by (simp add: exampleWidget_def renderCount_def renderTrace_def)
qed

text \<open>
  C3: for every text \<open>t\<close> and every markdown converter that keeps the placeholder tokens
  of the stripped text (whatever it does to the prose around them), the result of
  putting the math back into the converted text contains every math expression taken
  out of \<open>t\<close>, character by character.
\<close>

theorem math_survives_rendering:
  assumes "\<And>n. Tok n \<in> set (fst (removeMath t)) \<Longrightarrow> Tok n \<in> set (md (fst (removeMath t)))"
  shows "\<forall>e \<in> set (snd (removeMath t)).
           sublist (map Chr e) (replaceMath (md (fst (removeMath t))) (snd (removeMath t)))"
  using restored_math [of t md, OF assms] by blast

theorem math_survives_rendering_witness:
  "''$E=mc^2$'' \<in> set (snd (removeMath ''Energy: $E=mc^2$ rules.'')) \<and>
   sublist (map Chr ''$E=mc^2$'')
     (replaceMath (markedjs plainPackages (fst (removeMath ''Energy: $E=mc^2$ rules.'')))
        (snd (removeMath ''Energy: $E=mc^2$ rules.'')))"
proof -
  have "Tok n \<in> set (markedjs plainPackages (fst (removeMath ''Energy: $E=mc^2$ rules.'')))"
    if "Tok n \<in> set (fst (removeMath ''Energy: $E=mc^2$ rules.''))" for n
    using that by (simp add: plainPackages_def)
  from math_survives_rendering
    [of "''Energy: $E=mc^2$ rules.''" "markedjs plainPackages", OF this]
  show ?thesis
    by (simp add: example_removeMath)
qed

text \<open>
  C4: when a change notification names the focused facet with a true new value, the
  editor of the input sub-view gets the focus inside the handler, while the update the
  handler has posted is still waiting: the classes, the layout and the rendered content
  are as before. The update is applied when it is delivered, and what it does comes
  after the focus in the trace.
\<close>

theorem focus_precedes_update:
  assumes "name args = ''focused''" and "truthy (newValue args)"
  shows "effects (BaseCellWidget_onModelChanged b args) = effects b @ [EditorFocus] \<and>
         updatePosted (BaseCellWidget_onModelChanged b args) \<and>
         classList (BaseCellWidget_onModelChanged b args) = classList b \<and>
         effects (MarkdownCellWidget_onModelChanged w args) = effects w @ [EditorFocus] \<and>
         updatePosted (MarkdownCellWidget_onModelChanged w args) \<and>
         classList (MarkdownCellWidget_onModelChanged w args) = classList w \<and>
         layout (MarkdownCellWidget_onModelChanged w args) = layout w \<and>
         innerHTML (MarkdownCellWidget_onModelChanged w args) = innerHTML w \<and>
         deliver env (MarkdownCellWidget_onModelChanged w args) =
           MarkdownCellWidget_onUpdateRequest env
             ((MarkdownCellWidget_onModelChanged w args)\<lparr>updatePosted := False\<rparr>) \<and>
         prefix (effects w @ [EditorFocus])
           (effects (deliver env (MarkdownCellWidget_onModelChanged w args)))"
  using assms
  by (simp add: base_changed_effects markdown_changed_effects deliver_def
      markdown_update_effects render_def Let_def)

theorem focus_precedes_update_witness:
  "name focusArgs = ''focused'' \<and> truthy (newValue focusArgs) \<and>
   effects (MarkdownCellWidget_onModelChanged exampleWidget focusArgs) = [EditorFocus] \<and>
   updatePosted (MarkdownCellWidget_onModelChanged exampleWidget focusArgs) \<and>
   classList (MarkdownCellWidget_onModelChanged exampleWidget focusArgs)
     = classList exampleWidget"
proof -
  have h: "name focusArgs = ''focused''" "truthy (newValue focusArgs)"
    by (simp_all add: focusArgs_def)
  show ?thesis
    using h focus_precedes_update [OF h, of exampleWidget exampleWidget plainPackages]
    by (simp add: exampleWidget_def)
qed

text \<open>
  C5, as the code has it: the dirty flag is cleared by every update that is applied,
  whether a render computation ran or not, and by nothing else (changing the model or
  handling a notification never clears it). In particular an update applied while the
  rendered facet is false clears the flag and renders nothing.
\<close>

theorem dirty_cleared_by_every_update:
  "\<not> dirty (MarkdownCellWidget_onUpdateRequest env w) \<and>
   (a \<noteq> Deliver \<and> dirty w \<longrightarrow> dirty (step env w a)) \<and>
   (\<not> rendered (model w) \<longrightarrow>
      effects (MarkdownCellWidget_onUpdateRequest env w) = effects w)"
proof -
  have "dirty (step env w a)" if "a \<noteq> Deliver" "dirty w"
    using that by (cases a) (simp_all add: emit_def foldl_call_dirty)
  then show ?thesis
    by (simp add: markdown_update_effects)
qed

theorem dirty_cleared_by_every_update_witness:
  "Emit focusArgs \<noteq> Deliver \<and> dirty exampleWidget \<and> \<not> rendered (model exampleWidget) \<and>
   dirty (step plainPackages exampleWidget (Emit focusArgs)) \<and>
   \<not> dirty (MarkdownCellWidget_onUpdateRequest plainPackages exampleWidget) \<and>
   effects (MarkdownCellWidget_onUpdateRequest plainPackages exampleWidget)
     = effects exampleWidget"
proof -
  have h: "dirty exampleWidget" "\<not> rendered (model exampleWidget)"
    by (simp_all add: exampleWidget_def constructor_model exampleModel_def)
  show ?thesis
    using h dirty_cleared_by_every_update [of plainPackages exampleWidget "Emit focusArgs"]
    by simp
qed

text \<open>
  The widget constructed on a model in the editing state is dirty; the update applied
  to it clears the flag although nothing was rendered.
\<close>

theorem dirty_cleared_without_render:
  "\<not> rendered (model exampleWidget) \<and> dirty exampleWidget \<and>
   \<not> dirty (MarkdownCellWidget_onUpdateRequest plainPackages exampleWidget) \<and>
   effects (MarkdownCellWidget_onUpdateRequest plainPackages exampleWidget) = []"
  by (simp add: exampleWidget_def constructor_model exampleModel_def markdown_update_effects)

text \<open>
  C6: when an update is applied to a markdown cell view whose rendered facet is true
  and whose dirty flag is false, the trace of calls stays as it is (no math is taken
  out, nothing is converted, the HTML of the rendering node is not set, nothing is
  typeset) and the content of the rendering node is the one it had.
\<close>

theorem clean_update_reuses_rendering:
  assumes "rendered (model w)" and "\<not> dirty w"
  shows "effects (MarkdownCellWidget_onUpdateRequest env w) = effects w \<and>
         innerHTML (MarkdownCellWidget_onUpdateRequest env w) = innerHTML w"
  using assms by (simp add: markdown_update_effects markdown_update_innerHTML)

theorem clean_update_reuses_rendering_witness:
  "rendered (model renderedWidget) \<and> \<not> dirty renderedWidget \<and>
   effects (MarkdownCellWidget_onUpdateRequest plainPackages renderedWidget)
     = effects renderedWidget \<and>
   innerHTML (MarkdownCellWidget_onUpdateRequest plainPackages renderedWidget)
     = innerHTML renderedWidget"
proof -
  have h: "rendered (model renderedWidget)" "\<not> dirty renderedWidget"
    by (simp_all add: renderedWidget_def deliver_def constructor_model renderedModel_def
        exampleModel_def)
  show ?thesis
    using h clean_update_reuses_rendering [OF h, of plainPackages] by simp
qed

text \<open>
  C7, as the code has it: with a layout that keeps its children (a call adds or moves
  the given child and leaves the others in), both sub-views, the input and the rendered
  one, are children of the layout of a markdown cell view at every point after
  construction; an update only inserts the sub-view chosen by the rendered facet at
  index 1 again, and nothing the view does takes a child out.
\<close>

theorem both_subviews_stay_in_layout:
  assumes "keepsChildren env"
  shows "set (layout (run env (MarkdownCellWidget_constructor env this m) acts))
           = {InputView, RenderedView} \<and>
         layout (MarkdownCellWidget_onUpdateRequest env w) =
           insertChild env 1 (if rendered (model w) then RenderedView else InputView) (layout w)"
proof
  have "set (layout (MarkdownCellWidget_constructor env this m)) = {InputView, RenderedView}"
    using assms by (auto simp: keepsChildren_def)
  from run_layout [OF assms this]
  show "set (layout (run env (MarkdownCellWidget_constructor env this m) acts))
          = {InputView, RenderedView}" .
  show "layout (MarkdownCellWidget_onUpdateRequest env w) =
          insertChild env 1 (if rendered (model w) then RenderedView else InputView) (layout w)"
    by (rule markdown_update_layout)
qed

theorem both_subviews_stay_in_layout_witness:
  "keepsChildren plainPackages \<and>
   set (layout (run plainPackages exampleWidget [Deliver, SetModel renderedModel, Deliver]))
     = {InputView, RenderedView}"
  using keepsChildren_plain
    both_subviews_stay_in_layout [OF keepsChildren_plain, of 1 exampleModel
      "[Deliver, SetModel renderedModel, Deliver]"]
  by (simp add: exampleWidget_def)

text \<open>
  Right after construction both sub-views are children of the layout, not one of them.
\<close>

theorem both_subviews_attached_after_construction:
  "InputView \<in> set (layout exampleWidget) \<and> RenderedView \<in> set (layout exampleWidget)"
  by (simp add: exampleWidget_def plainPackages_def insertAt_def)

text \<open>
  C8, as the code has it: a markdown cell view is constructed with its dirty flag true
  and an update posted, and stays so until that first update is delivered, whatever
  happens to the model in between. The first update runs the render computation once
  if the rendered facet of the model is true when it is applied, and not at all if the
  facet is false.
\<close>

theorem first_update_renders_when_rendered:
  assumes "Deliver \<notin> set acts"
    and "w = run env (MarkdownCellWidget_constructor env this m) acts"
  shows "dirty (MarkdownCellWidget_constructor env this m) \<and> dirty w \<and> updatePosted w \<and>
         renderCount (effects (deliver env w)) = (if rendered (model w) then 1 else 0)"
proof -
  have "dirty w \<and> updatePosted w \<and> renderCount (effects w) = 0"
    using run_before_first_update
      [OF assms(1), of "MarkdownCellWidget_constructor env this m" env]
    by (simp add: assms(2) renderCount_def)
  then show ?thesis
    by (simp add: deliver_def markdown_update_effects render_count)
qed

theorem first_update_renders_when_rendered_witness:
  "Deliver \<notin> set [SetModel renderedModel] \<and>
   dirty (run plainPackages exampleWidget [SetModel renderedModel]) \<and>
   renderCount (effects (deliver plainPackages
      (run plainPackages exampleWidget [SetModel renderedModel]))) = 1"
proof -
  have h: "Deliver \<notin> set [SetModel renderedModel]" by simp
  show ?thesis
    using first_update_renders_when_rendered
      [OF h refl, of plainPackages 1 exampleModel]
    by (simp add: exampleWidget_def run_def renderedModel_def)
qed

text \<open>
  The first update of the widget constructed on a model in the editing state renders
  nothing.
\<close>

theorem first_update_in_editing_renders_nothing:
  "dirty exampleWidget \<and> updatePosted exampleWidget \<and>
   effects (deliver plainPackages exampleWidget) = []"
  by (simp add: exampleWidget_def deliver_def markdown_update_effects constructor_model
      exampleModel_def)

text \<open>
  C10: the constructor of a markdown cell view sets the mimetype of the text editor of
  the model's input to \<^verbatim>\<open>text/x-ipythongfm\<close>, for every model, and leaves the text itself
  and the facets as they are.
\<close>

theorem constructor_sets_markdown_mimetype:
  "mimetype (textEditor (input (model (MarkdownCellWidget_constructor env this m))))
     = ''text/x-ipythongfm'' \<and>
   editorText (textEditor (input (model (MarkdownCellWidget_constructor env this m))))
     = editorText (textEditor (input m)) \<and>
   selected (model (MarkdownCellWidget_constructor env this m)) = selected m \<and>
   marked (model (MarkdownCellWidget_constructor env this m)) = marked m \<and>
   focused (model (MarkdownCellWidget_constructor env this m)) = focused m \<and>
   rendered (model (MarkdownCellWidget_constructor env this m)) = rendered m"
  by (simp add: constructor_model)

end
